theory Spec2Isabelle
  imports Main
begin

section \<open>Step-by-step Tetris: the simulation core of main.py\<close>

text \<open>
  The model follows \<^verbatim>\<open>src/main.py\<close>: the table \<^verbatim>\<open>shapes\<close>, the classes
  \<^verbatim>\<open>TetrisPiece\<close> and \<^verbatim>\<open>TetrisGrid\<close>, and the six button callbacks of
  \<^verbatim>\<open>StepTetrisGame\<close>. The Tk widgets, \<^verbatim>\<open>update_display\<close> and the score label
  only read the state and are left out. Mutation is explicit state passing, a Python
  exception is the \<open>Inl\<close> branch of a sum, and the result of \<^verbatim>\<open>random.choice\<close> is an
  argument of the operation that draws it. The only exception that the core can raise
  is the \<^verbatim>\<open>IndexError\<close> of a list index out of range; the state that a raising
  callback would leave behind is not modelled, and no callback raises in a state of a
  game (lemma \<open>game_inv_act\<close>).
\<close>

subsection \<open>Python lists\<close>

datatype error = IndexError

text \<open>
  \<^verbatim>\<open>xs[i]\<close>: an index from \<open>-len(xs)\<close> up to \<open>len(xs) - 1\<close> is accepted, a negative
  one counting from the end; any other index raises.
\<close>

definition py_index :: "'a list \<Rightarrow> int \<Rightarrow> error + nat" where
  "py_index xs i =
     (if 0 \<le> i \<and> i < int (length xs) then Inr (nat i)
      else if i < 0 \<and> - int (length xs) \<le> i then Inr (nat (int (length xs) + i))
      else Inl IndexError)"

definition py_get :: "'a list \<Rightarrow> int \<Rightarrow> error + 'a" where
  "py_get xs i = (case py_index xs i of Inl e \<Rightarrow> Inl e | Inr j \<Rightarrow> Inr (xs ! j))"

definition py_set :: "'a list \<Rightarrow> int \<Rightarrow> 'a \<Rightarrow> error + 'a list" where
  "py_set xs i v = (case py_index xs i of Inl e \<Rightarrow> Inl e | Inr j \<Rightarrow> Inr (xs[j := v]))"

subsection \<open>The shape table\<close>

text \<open>
  The seven keys of the dictionary \<^verbatim>\<open>shapes\<close>, in the order of the source. The
  constructor of the key \<^verbatim>\<open>'O'\<close> is \<open>ShO\<close>, and so on (\<open>O\<close> is the composition of
  relations in HOL).
\<close>

datatype shape = ShO | ShI | ShJ | ShL | ShT | ShZ | ShS

text \<open>The key itself, the string that \<^verbatim>\<open>place_piece\<close> writes into a cell.\<close>

fun shape_key :: "shape \<Rightarrow> string" where
  "shape_key ShO = ''O''"
| "shape_key ShI = ''I''"
| "shape_key ShJ = ''J''"
| "shape_key ShL = ''L''"
| "shape_key ShT = ''T''"
| "shape_key ShZ = ''Z''"
| "shape_key ShS = ''S''"

fun shapes :: "shape \<Rightarrow> string list" where
  "shapes ShO = [''56a9'', ''6a95'', ''a956'', ''956a'']"
| "shapes ShI = [''4567'', ''26ae'', ''ba98'', ''d951'']"
| "shapes ShJ = [''0456'', ''2159'', ''a654'', ''8951'']"
| "shapes ShL = [''2654'', ''a951'', ''8456'', ''0159'']"
| "shapes ShT = [''1456'', ''6159'', ''9654'', ''4951'']"
| "shapes ShZ = [''0156'', ''2659'', ''a954'', ''8451'']"
| "shapes ShS = [''1254'', ''a651'', ''8956'', ''0459'']"

text \<open>
  \<^verbatim>\<open>int(char, 16)\<close> on one character: the value of a hexadecimal digit, in
  either case. The table holds hexadecimal digits only (lemma \<open>shapes_hex\<close> below),
  so the \<^verbatim>\<open>ValueError\<close> of any other character is never raised; the branch \<open>None\<close>
  stands for it.
\<close>

definition int16 :: "char \<Rightarrow> int" where
  "int16 c =
     (case map_of (zip ''0123456789abcdef'' [0..15] @ zip ''ABCDEF'' [10..15]) c of
        Some n \<Rightarrow> n
      | None \<Rightarrow> 0)"

definition is_hex :: "char \<Rightarrow> bool" where
  "is_hex c = (c \<in> set ''0123456789abcdefABCDEF'')"

subsection \<open>TetrisPiece\<close>

record TetrisPiece =
  shape :: shape
  x :: int
  y :: int
  rot :: int

text \<open>
  \<^verbatim>\<open>get_blocks\<close> is a generator over the four characters of the active rotation
  state; the model is the list of what it yields, in order. \<^verbatim>\<open>divmod(n, 4)\<close> is
  \<open>(n div 4, n mod 4)\<close>, and \<^verbatim>\<open>self.rot % 4\<close> is in \<open>{0..3}\<close> for every integer,
  as \<open>mod\<close> on \<open>int\<close> is.
\<close>

definition block_of :: "TetrisPiece \<Rightarrow> char \<Rightarrow> int \<times> int" where
  "block_of p c = (x p + int16 c mod 4, y p - int16 c div 4)"

definition get_blocks :: "TetrisPiece \<Rightarrow> (int \<times> int) list" where
  "get_blocks p = map (block_of p) (shapes (shape p) ! nat (rot p mod 4))"

definition move :: "TetrisPiece \<Rightarrow> int \<Rightarrow> int \<Rightarrow> int \<Rightarrow> TetrisPiece" where
  "move p dx dy drot = p\<lparr>x := x p + dx, y := y p + dy, rot := (rot p + drot) mod 4\<rparr>"

subsection \<open>TetrisGrid\<close>

text \<open>
  The field \<^verbatim>\<open>self.grid\<close> of the class, a list of rows of cells, is named \<open>rows\<close>
  here, since the game has a field \<^verbatim>\<open>grid\<close> too. A cell is a Python string: empty,
  or the key of the shape locked there.
\<close>

record TetrisGrid =
  width :: int
  height :: int
  rows :: "string list list"

text \<open>
  \<^verbatim>\<open>__init__\<close> checks nothing: \<^verbatim>\<open>[''] * width\<close> is the empty list for a width
  below 1 and \<^verbatim>\<open>range(height)\<close> is empty for a height below 1. The result type has
  an error branch so that a failing construction could be told from a grid.
\<close>

definition TetrisGrid_init :: "int \<Rightarrow> int \<Rightarrow> error + TetrisGrid" where
  "TetrisGrid_init w h =
     Inr \<lparr>width = w, height = h, rows = replicate (nat h) (replicate (nat w) '''')\<rparr>"

text \<open>
  \<^verbatim>\<open>clear_full_rows\<close> keeps the rows that have an empty cell, counts the others from
  the field \<^verbatim>\<open>height\<close>, and puts that many fresh rows on top.
\<close>

definition clear_full_rows :: "TetrisGrid \<Rightarrow> int \<times> TetrisGrid" where
  "clear_full_rows g =
     (let kept = filter (\<lambda>row. list_ex (\<lambda>cell. cell = '''') row) (rows g);
          cleared_rows = height g - int (length kept)
      in (cleared_rows,
          g\<lparr>rows := replicate (nat cleared_rows) (replicate (nat (width g)) '''') @ kept\<rparr>))"

text \<open>
  \<^verbatim>\<open>piece_fits\<close>: the loop returns at the first block that is out of the bounds
  given by the fields or lies on a cell that is a non-empty string. The cell is read
  only after both bound checks, by two list reads.
\<close>

fun fits_blocks :: "TetrisGrid \<Rightarrow> (int \<times> int) list \<Rightarrow> error + bool" where
  "fits_blocks g [] = Inr True"
| "fits_blocks g ((bx, by) # bs) =
     (if \<not> (0 \<le> bx \<and> bx < width g) \<or> \<not> (0 \<le> by \<and> by < height g) then Inr False
      else case py_get (rows g) by of
             Inl e \<Rightarrow> Inl e
           | Inr row \<Rightarrow>
               (case py_get row bx of
                  Inl e \<Rightarrow> Inl e
                | Inr cell \<Rightarrow> if cell \<noteq> '''' then Inr False else fits_blocks g bs))"

definition piece_fits :: "TetrisGrid \<Rightarrow> TetrisPiece \<Rightarrow> error + bool" where
  "piece_fits g p = fits_blocks g (get_blocks p)"

text \<open>
  \<^verbatim>\<open>place_piece\<close>: \<^verbatim>\<open>self.grid[y][x] = piece.shape\<close> reads the row by Python
  indexing and assigns into it by Python indexing, so a negative coordinate that is not
  below \<open>-len\<close> writes from the far end, and any other coordinate out of range raises.
\<close>

fun place_blocks :: "string list list \<Rightarrow> string \<Rightarrow> (int \<times> int) list \<Rightarrow> error + string list list" where
  "place_blocks rs v [] = Inr rs"
| "place_blocks rs v ((bx, by) # bs) =
     (case py_index rs by of
        Inl e \<Rightarrow> Inl e
      | Inr j \<Rightarrow>
          (case py_set (rs ! j) bx v of
             Inl e \<Rightarrow> Inl e
           | Inr row \<Rightarrow> place_blocks (rs[j := row]) v bs))"

definition place_piece :: "TetrisGrid \<Rightarrow> TetrisPiece \<Rightarrow> error + TetrisGrid" where
  "place_piece g p =
     (case place_blocks (rows g) (shape_key (shape p)) (get_blocks p) of
        Inl e \<Rightarrow> Inl e
      | Inr rs \<Rightarrow> Inr (g\<lparr>rows := rs\<rparr>))"

subsection \<open>StepTetrisGame\<close>

record StepTetrisGame =
  grid :: TetrisGrid
  piece :: TetrisPiece
  score :: int

text \<open>
  \<^verbatim>\<open>get_next_piece\<close>: the argument is the key that \<^verbatim>\<open>random.choice\<close> returns.
  The constructor of the piece checks nothing.
\<close>

definition get_next_piece :: "shape \<Rightarrow> TetrisPiece" where
  "get_next_piece k = \<lparr>shape = k, x = 4, y = 1, rot = 0\<rparr>"

text \<open>\<^verbatim>\<open>__init__\<close>, without the widgets: a default grid, a first piece, score 0.\<close>

definition game_init :: "shape \<Rightarrow> error + StepTetrisGame" where
  "game_init k =
     (case TetrisGrid_init 10 16 of
        Inl e \<Rightarrow> Inl e
      | Inr g \<Rightarrow> Inr \<lparr>grid = g, piece = get_next_piece k, score = 0\<rparr>)"

definition update_score :: "int \<Rightarrow> StepTetrisGame \<Rightarrow> StepTetrisGame" where
  "update_score cleared_rows s = s\<lparr>score := score s + cleared_rows * 100\<rparr>"

definition move_left :: "StepTetrisGame \<Rightarrow> error + StepTetrisGame" where
  "move_left s =
     (let p1 = move (piece s) (- 1) 0 0 in
      case piece_fits (grid s) p1 of
        Inl e \<Rightarrow> Inl e
      | Inr ok \<Rightarrow> Inr (s\<lparr>piece := (if \<not> ok then move p1 1 0 0 else p1)\<rparr>))"

definition move_right :: "StepTetrisGame \<Rightarrow> error + StepTetrisGame" where
  "move_right s =
     (let p1 = move (piece s) 1 0 0 in
      case piece_fits (grid s) p1 of
        Inl e \<Rightarrow> Inl e
      | Inr ok \<Rightarrow> Inr (s\<lparr>piece := (if \<not> ok then move p1 (- 1) 0 0 else p1)\<rparr>))"

definition rotate_piece :: "StepTetrisGame \<Rightarrow> error + StepTetrisGame" where
  "rotate_piece s =
     (let p1 = move (piece s) 0 0 1 in
      case piece_fits (grid s) p1 of
        Inl e \<Rightarrow> Inl e
      | Inr ok \<Rightarrow> Inr (s\<lparr>piece := (if \<not> ok then move p1 0 0 (- 1) else p1)\<rparr>))"

text \<open>
  \<^verbatim>\<open>step_down\<close>: the first argument is the key drawn by \<^verbatim>\<open>get_next_piece\<close>, which
  is called in the locking branch only.
\<close>

definition step_down :: "shape \<Rightarrow> StepTetrisGame \<Rightarrow> error + StepTetrisGame" where
  "step_down k s =
     (let p1 = move (piece s) 0 1 0 in
      case piece_fits (grid s) p1 of
        Inl e \<Rightarrow> Inl e
      | Inr ok \<Rightarrow>
          if \<not> ok then
            (let p2 = move p1 0 (- 1) 0 in
             case place_piece (grid s) p2 of
               Inl e \<Rightarrow> Inl e
             | Inr g1 \<Rightarrow>
                 (let (cleared_rows, g2) = clear_full_rows g1 in
                  Inr ((update_score cleared_rows (s\<lparr>grid := g2, piece := p2\<rparr>))
                         \<lparr>piece := get_next_piece k\<rparr>)))
          else Inr (s\<lparr>piece := p1\<rparr>))"

text \<open>
  The loop of \<^verbatim>\<open>drop_piece\<close>, \<^verbatim>\<open>while self.grid.piece_fits(self.piece):
  self.piece.move(dy=1)\<close>: the result is the piece when the loop is left. A piece that
  fits has its first block above the bottom, so the loop ends.
\<close>

function drop_loop :: "TetrisGrid \<Rightarrow> TetrisPiece \<Rightarrow> error + TetrisPiece" where
  "drop_loop g p =
     (case piece_fits g p of
        Inl e \<Rightarrow> Inl e
      | Inr ok \<Rightarrow> if ok then drop_loop g (move p 0 1 0) else Inr p)"
  by pat_completeness auto

text \<open>Facts about the table that the termination proof needs.\<close>

lemma int16_simps:
  "int16 CHR ''0'' = 0" "int16 CHR ''1'' = 1" "int16 CHR ''2'' = 2" "int16 CHR ''3'' = 3"
  "int16 CHR ''4'' = 4" "int16 CHR ''5'' = 5" "int16 CHR ''6'' = 6" "int16 CHR ''7'' = 7"
  "int16 CHR ''8'' = 8" "int16 CHR ''9'' = 9" "int16 CHR ''a'' = 10" "int16 CHR ''b'' = 11"
  "int16 CHR ''c'' = 12" "int16 CHR ''d'' = 13" "int16 CHR ''e'' = 14" "int16 CHR ''f'' = 15"
  by code_simp+

lemma rot_index_cases:
  "nat (r mod 4) = 0 \<or> nat (r mod 4) = 1 \<or> nat (r mod 4) = 2 \<or> nat (r mod 4) = 3"
proof -
  have "r mod 4 = 0 \<or> r mod 4 = 1 \<or> r mod 4 = 2 \<or> r mod 4 = 3" by presburger
  then show ?thesis by (elim disjE) simp_all
qed

lemma shapes_first_block:
  "\<exists>c cs. shapes k ! nat (r mod 4) = c # cs \<and> int16 c div 4 \<le> 3"
  using rot_index_cases [of r]
  by (elim disjE; cases k; simp add: int16_simps)

lemma piece_fits_above_bottom:
  assumes "piece_fits g p = Inr True"
  shows "y p < height g + 4"
proof -
  obtain c cs where nth: "shapes (shape p) ! nat (rot p mod 4) = c # cs"
    and c: "int16 c div 4 \<le> 3"
    using shapes_first_block by blast
  from assms nth have "y p - int16 c div 4 < height g"
    by (auto simp: piece_fits_def get_blocks_def block_of_def split: if_splits)
  with c show ?thesis by linarith
qed

termination drop_loop
proof (relation "measure (\<lambda>(g, p). nat (height g + 4 - y p))")
  show "wf (measure (\<lambda>(g, p). nat (height g + 4 - y p)))" by simp
next
  fix g :: TetrisGrid and p :: TetrisPiece and ok :: bool
  assume "piece_fits g p = Inr ok" and ok
  then have "y p < height g + 4"
    using piece_fits_above_bottom by simp
  then show "((g, move p 0 1 0), (g, p)) \<in> measure (\<lambda>(g, p). nat (height g + 4 - y p))"
    by (simp add: move_def)
qed

text \<open>
  \<^verbatim>\<open>drop_piece\<close>: after the loop the piece is moved up one row, whether or not the
  loop moved it down, and is then placed; the rest is the sequence of \<^verbatim>\<open>step_down\<close>.
\<close>

definition drop_piece :: "shape \<Rightarrow> StepTetrisGame \<Rightarrow> error + StepTetrisGame" where
  "drop_piece k s =
     (case drop_loop (grid s) (piece s) of
        Inl e \<Rightarrow> Inl e
      | Inr p1 \<Rightarrow>
          (let p2 = move p1 0 (- 1) 0 in
           case place_piece (grid s) p2 of
             Inl e \<Rightarrow> Inl e
           | Inr g1 \<Rightarrow>
               (let (cleared_rows, g2) = clear_full_rows g1 in
                Inr ((update_score cleared_rows (s\<lparr>grid := g2, piece := p2\<rparr>))
                       \<lparr>piece := get_next_piece k\<rparr>))))"

definition reset_game :: "shape \<Rightarrow> StepTetrisGame \<Rightarrow> error + StepTetrisGame" where
  "reset_game k s =
     (case TetrisGrid_init 10 16 of
        Inl e \<Rightarrow> Inl e
      | Inr g \<Rightarrow> Inr (s\<lparr>grid := g, piece := get_next_piece k, score := 0\<rparr>))"

text \<open>
  The six buttons. An action that can spawn a piece carries the key that
  \<^verbatim>\<open>random.choice\<close> returns if it is called.
\<close>

datatype action = MoveLeft | MoveRight | Rotate | StepDown shape | DropPiece shape | ResetGame shape

fun act :: "action \<Rightarrow> StepTetrisGame \<Rightarrow> error + StepTetrisGame" where
  "act MoveLeft s = move_left s"
| "act MoveRight s = move_right s"
| "act Rotate s = rotate_piece s"
| "act (StepDown k) s = step_down k s"
| "act (DropPiece k) s = drop_piece k s"
| "act (ResetGame k) s = reset_game k s"

text \<open>Pressing buttons one after the other; an exception ends the sequence.\<close>

fun run :: "action list \<Rightarrow> StepTetrisGame \<Rightarrow> error + StepTetrisGame" where
  "run [] s = Inr s"
| "run (a # as) s = (case act a s of Inl e \<Rightarrow> Inl e | Inr s' \<Rightarrow> run as s')"

text \<open>The states of a game: a fresh game, and every state an action returns from one.\<close>

inductive reachable :: "StepTetrisGame \<Rightarrow> bool" where
  start: "game_init k = Inr s \<Longrightarrow> reachable s"
| step: "reachable s \<Longrightarrow> act a s = Inr s' \<Longrightarrow> reachable s'"

subsection \<open>Notions of the specification\<close>

text \<open>
  The invariant of the class \<^verbatim>\<open>TetrisGrid\<close>: as many rows as \<^verbatim>\<open>range(height)\<close>
  gives, each as long as \<^verbatim>\<open>[''] * width\<close>.
\<close>

definition grid_ok :: "TetrisGrid \<Rightarrow> bool" where
  "grid_ok g =
     (length (rows g) = nat (height g) \<and>
      list_all (\<lambda>row. length row = nat (width g)) (rows g))"

text \<open>The cell at column \<open>cx\<close> of row \<open>cy\<close>, for coordinates inside the grid.\<close>

definition cell_at :: "TetrisGrid \<Rightarrow> int \<Rightarrow> int \<Rightarrow> string" where
  "cell_at g cx cy = rows g ! nat cy ! nat cx"

text \<open>What the specification asks of every block of a piece that fits.\<close>

definition block_free :: "TetrisGrid \<Rightarrow> int \<times> int \<Rightarrow> bool" where
  "block_free g b =
     (0 \<le> fst b \<and> fst b < width g \<and> 0 \<le> snd b \<and> snd b < height g \<and>
      cell_at g (fst b) (snd b) = '''')"

text \<open>A row is full when every cell of it is a non-empty string.\<close>

definition full_row :: "string list \<Rightarrow> bool" where
  "full_row row = list_all (\<lambda>cell. cell \<noteq> '''') row"

text \<open>The rotation index of a piece is one of 0, 1, 2, 3.\<close>

definition piece_ok :: "TetrisPiece \<Rightarrow> bool" where
  "piece_ok p = (0 \<le> rot p \<and> rot p < 4)"

text \<open>
  The locking sequence that \<^verbatim>\<open>step_down\<close> and \<^verbatim>\<open>drop_piece\<close> share: place the
  piece, clear the full rows, add 100 per cleared row once, spawn the piece of key \<open>k\<close>.
\<close>

definition lock_piece :: "shape \<Rightarrow> TetrisPiece \<Rightarrow> StepTetrisGame \<Rightarrow> error + StepTetrisGame" where
  "lock_piece k p s =
     (case place_piece (grid s) p of
        Inl e \<Rightarrow> Inl e
      | Inr g1 \<Rightarrow>
          Inr \<lparr>grid = snd (clear_full_rows g1), piece = get_next_piece k,
               score = score s + fst (clear_full_rows g1) * 100\<rparr>)"

text \<open>
  Calling \<^verbatim>\<open>step_down\<close> until the call that locks the piece: while the piece one
  row down fits, the call only moves the piece, and the next call follows.
\<close>

function step_down_until_lock :: "shape \<Rightarrow> StepTetrisGame \<Rightarrow> error + StepTetrisGame" where
  "step_down_until_lock k s =
     (case piece_fits (grid s) (move (piece s) 0 1 0) of
        Inl e \<Rightarrow> Inl e
      | Inr ok \<Rightarrow>
          if ok then
            (case step_down k s of
               Inl e \<Rightarrow> Inl e
             | Inr s' \<Rightarrow> step_down_until_lock k s')
          else step_down k s)"
  by pat_completeness auto
termination
proof (relation "measure (\<lambda>(k, s). nat (height (grid s) + 4 - y (piece s)))")
  show "wf (measure (\<lambda>(k, s). nat (height (grid s) + 4 - y (piece s))))" by simp
next
  fix k :: shape and s s' :: StepTetrisGame and ok :: bool
  assume fit: "piece_fits (grid s) (move (piece s) 0 1 0) = Inr ok" and ok
    and st: "step_down k s = Inr s'"
  from fit \<open>ok\<close> have "y (move (piece s) 0 1 0) < height (grid s) + 4"
    using piece_fits_above_bottom by simp
  moreover from fit \<open>ok\<close> st have "s' = s\<lparr>piece := move (piece s) 0 1 0\<rparr>"
    by (simp add: step_down_def)
  ultimately show "((k, s'), (k, s)) \<in> measure (\<lambda>(k, s). nat (height (grid s) + 4 - y (piece s)))"
    by (simp add: move_def)
qed

text \<open>
  A block that \<^verbatim>\<open>place_piece\<close> can write without an \<^verbatim>\<open>IndexError\<close> on a grid of
  \<open>h\<close> rows of \<open>w\<close> cells: both coordinates are Python indices of their list.
\<close>

definition valid_index :: "int \<Rightarrow> int \<Rightarrow> int \<times> int \<Rightarrow> bool" where
  "valid_index w h b = (- w \<le> fst b \<and> fst b < w \<and> - h \<le> snd b \<and> snd b < h)"

text \<open>
  What holds of every state of a game: the grid is the default one in size and
  satisfies the class invariant, the rotation index is in \<open>{0..3}\<close>, and a piece that
  does not fit has not left the place where it was spawned.
\<close>

definition game_inv :: "StepTetrisGame \<Rightarrow> bool" where
  "game_inv s =
     (grid_ok (grid s) \<and> width (grid s) = 10 \<and> height (grid s) = 16 \<and>
      piece_ok (piece s) \<and>
      (piece_fits (grid s) (piece s) = Inr True \<or>
       x (piece s) = 4 \<and> y (piece s) = 1 \<and> rot (piece s) = 0))"

text \<open>
  Grids for the examples: the default grid with every cell empty, and the default grid
  with cells of the columns 5 and 6 filled in the lowest two and the lowest four rows,
  and with the columns 4 to 7 filled in the lowest row.
\<close>

definition empty_grid :: TetrisGrid where
  "empty_grid = \<lparr>width = 10, height = 16, rows = replicate 16 (replicate 10 '''')\<rparr>"

definition grid_with_O :: TetrisGrid where
  "grid_with_O =
     \<lparr>width = 10, height = 16,
      rows = replicate 14 (replicate 10 '''') @
             replicate 2 ['''', '''', '''', '''', '''', ''O'', ''O'', '''', '''', '''']\<rparr>"

definition grid_with_two_O :: TetrisGrid where
  "grid_with_two_O =
     \<lparr>width = 10, height = 16,
      rows = replicate 12 (replicate 10 '''') @
             replicate 4 ['''', '''', '''', '''', '''', ''O'', ''O'', '''', '''', '''']\<rparr>"

definition grid_with_I :: TetrisGrid where
  "grid_with_I =
     \<lparr>width = 10, height = 16,
      rows = replicate 15 (replicate 10 '''') @
             [['''', '''', '''', '''', ''I'', ''I'', ''I'', ''I'', '''', '''']]\<rparr>"



section \<open>Properties\<close>

subsection \<open>The shape table and the blocks of a piece\<close>

lemma shapes_hex: "list_all (list_all is_hex) (shapes k)"
  by (cases k) (simp_all add: is_hex_def)

lemma get_blocks_cases:
  "length (get_blocks p) = 4 \<and> distinct (get_blocks p) \<and>
   (\<forall>b \<in> set (get_blocks p).
      0 \<le> fst b - x p \<and> fst b - x p < 4 \<and> 0 \<le> y p - snd b \<and> y p - snd b < 4)"
  using rot_index_cases [of "rot p"]
  by (elim disjE; cases "shape p"; simp add: get_blocks_def block_of_def int16_simps)

lemma length_get_blocks: "length (get_blocks p) = 4"
  using get_blocks_cases [of p] by blast

text \<open>
  C9. For each of the seven shapes and every rotation index, \<open>get_blocks\<close> yields four
  pairwise distinct cells, each \<open>(x + lx, y - ly)\<close> with \<open>lx\<close> and \<open>ly\<close> in \<open>{0..3}\<close>. The
  generator reads the piece and the table only, so enumerating again gives the same
  list: in the model \<open>get_blocks\<close> is a function of the piece.
\<close>

theorem get_blocks_four_distinct_cells:
  "length (get_blocks p) = 4 \<and> distinct (get_blocks p) \<and>
   (\<forall>b \<in> set (get_blocks p).
      \<exists>lx ly. 0 \<le> lx \<and> lx < 4 \<and> 0 \<le> ly \<and> ly < 4 \<and> b = (x p + lx, y p - ly))"
proof -
  have "\<exists>lx ly. 0 \<le> lx \<and> lx < 4 \<and> 0 \<le> ly \<and> ly < 4 \<and> b = (x p + lx, y p - ly)"
    if "b \<in> set (get_blocks p)" for b
  proof -
    from that get_blocks_cases [of p]
    have "0 \<le> fst b - x p \<and> fst b - x p < 4 \<and> 0 \<le> y p - snd b \<and> y p - snd b < 4"
      by blast
    moreover have "b = (x p + (fst b - x p), y p - (y p - snd b))" by simp
    ultimately show ?thesis by blast
  qed
  with get_blocks_cases [of p] show ?thesis by blast
qed

theorem get_blocks_four_distinct_cells_witness:
  "length (get_blocks \<lparr>shape = ShT, x = 4, y = 1, rot = 6\<rparr>) = 4 \<and>
   distinct (get_blocks \<lparr>shape = ShT, x = 4, y = 1, rot = 6\<rparr>) \<and>
   (5, - 1) \<in> set (get_blocks \<lparr>shape = ShT, x = 4, y = 1, rot = 6\<rparr>) \<and>
   (\<exists>lx ly :: int. 0 \<le> lx \<and> lx < 4 \<and> 0 \<le> ly \<and> ly < 4 \<and> (5 :: int, - 1 :: int) = (4 + lx, 1 - ly))"
proof -
  have m: "(5, - 1) \<in> set (get_blocks \<lparr>shape = ShT, x = 4, y = 1, rot = 6\<rparr>)"
    by (simp add: get_blocks_def block_of_def int16_simps)
  from get_blocks_four_distinct_cells [of "\<lparr>shape = ShT, x = 4, y = 1, rot = 6\<rparr>"] m
  show ?thesis by auto
qed

subsection \<open>Reading the grid\<close>

lemma py_index_inside:
  "0 \<le> i \<Longrightarrow> i < int (length xs) \<Longrightarrow> py_index xs i = Inr (nat i)"
  by (simp add: py_index_def)

lemma py_index_Inr:
  "py_index xs i = Inr j \<Longrightarrow> j < length xs"
  by (auto simp: py_index_def split: if_splits)

lemma py_index_valid:
  "- int (length xs) \<le> i \<Longrightarrow> i < int (length xs) \<Longrightarrow> \<exists>j. py_index xs i = Inr j"
  by (auto simp: py_index_def)

lemma grid_ok_row:
  "grid_ok g \<Longrightarrow> j < length (rows g) \<Longrightarrow> length (rows g ! j) = nat (width g)"
  by (simp add: grid_ok_def list_all_length)

lemma fits_blocks_grid_ok:
  assumes "grid_ok g"
  shows "fits_blocks g bs = Inr (list_all (block_free g) bs)"
proof (induction bs)
  case Nil
  show ?case by simp
next
  case (Cons b bs)
  obtain bx "by" where b: "b = (bx, by)" by (cases b)
  show ?case
  proof (cases "0 \<le> bx \<and> bx < width g \<and> 0 \<le> by \<and> by < height g")
    case False
    then show ?thesis by (auto simp: b block_free_def)
  next
    case True
    with assms have row: "py_get (rows g) by = Inr (rows g ! nat by)"
      by (simp add: py_get_def py_index_inside grid_ok_def)
    from True assms have "nat by < length (rows g)"
      by (simp add: grid_ok_def)
    with assms have "length (rows g ! nat by) = nat (width g)"
      by (rule grid_ok_row)
    with True have "py_get (rows g ! nat by) bx = Inr (rows g ! nat by ! nat bx)"
      by (simp add: py_get_def py_index_inside)
    with True row Cons.IH show ?thesis
      by (simp add: b block_free_def cell_at_def)
  qed
qed

lemma piece_fits_grid_ok:
  "grid_ok g \<Longrightarrow> piece_fits g p = Inr (list_all (block_free g) (get_blocks p))"
  by (simp add: piece_fits_def fits_blocks_grid_ok)

text \<open>
  C4. On a grid that satisfies the invariant of its class, \<open>piece_fits\<close> returns true
  exactly when each of the four blocks of the piece has \<open>0 \<le> x < width\<close>,
  \<open>0 \<le> y < height\<close> and lies on an empty cell. The query returns a boolean and nothing
  else: the source assigns to no field of the grid or of the piece, so the model has
  no state to return.
\<close>

theorem piece_fits_iff_all_blocks_free:
  assumes "grid_ok g"
  shows "length (get_blocks p) = 4 \<and>
     piece_fits g p =
       Inr (\<forall>(cx, cy) \<in> set (get_blocks p).
              0 \<le> cx \<and> cx < width g \<and> 0 \<le> cy \<and> cy < height g \<and>
              rows g ! nat cy ! nat cx = '''')"
proof -
  have "list_all (block_free g) bs =
      (\<forall>(cx, cy) \<in> set bs.
         0 \<le> cx \<and> cx < width g \<and> 0 \<le> cy \<and> cy < height g \<and> rows g ! nat cy ! nat cx = '''')"
    for bs
    by (auto simp: list_all_iff block_free_def cell_at_def)
  with assms show ?thesis
    by (simp add: piece_fits_grid_ok length_get_blocks)
qed

theorem piece_fits_iff_all_blocks_free_witness:
  "grid_ok \<lparr>width = 4, height = 2, rows = [['''', '''', '''', ''''], [''I'', ''I'', '''', '''']]\<rparr> \<and>
   piece_fits \<lparr>width = 4, height = 2, rows = [['''', '''', '''', ''''], [''I'', ''I'', '''', '''']]\<rparr>
     \<lparr>shape = ShO, x = 1, y = 2, rot = 0\<rparr> = Inr True \<and>
   piece_fits \<lparr>width = 4, height = 2, rows = [['''', '''', '''', ''''], [''I'', ''I'', '''', '''']]\<rparr>
     \<lparr>shape = ShO, x = 0, y = 2, rot = 0\<rparr> = Inr False \<and>
   piece_fits \<lparr>width = 4, height = 2, rows = [['''', '''', '''', ''''], [''I'', ''I'', '''', '''']]\<rparr>
     \<lparr>shape = ShO, x = 2, y = 2, rot = 0\<rparr> = Inr False \<and>
   piece_fits \<lparr>width = 4, height = 2, rows = [['''', '''', '''', ''''], [''I'', ''I'', '''', '''']]\<rparr>
     \<lparr>shape = ShO, x = 1, y = 3, rot = 0\<rparr> = Inr False"
proof -
  let ?g = "\<lparr>width = 4, height = 2, rows = [['''', '''', '''', ''''], [''I'', ''I'', '''', '''']]\<rparr>"
  have ok: "grid_ok ?g" by (simp add: grid_ok_def)
  have b1: "get_blocks \<lparr>shape = ShO, x = 1, y = 2, rot = 0\<rparr> = [(2, 1), (3, 1), (3, 0), (2, 0)]"
    and b2: "get_blocks \<lparr>shape = ShO, x = 0, y = 2, rot = 0\<rparr> = [(1, 1), (2, 1), (2, 0), (1, 0)]"
    and b3: "get_blocks \<lparr>shape = ShO, x = 2, y = 2, rot = 0\<rparr> = [(3, 1), (4, 1), (4, 0), (3, 0)]"
    and b4: "get_blocks \<lparr>shape = ShO, x = 1, y = 3, rot = 0\<rparr> = [(2, 2), (3, 2), (3, 1), (2, 1)]"
    by (simp_all add: get_blocks_def block_of_def int16_simps)
  show ?thesis
    using ok piece_fits_iff_all_blocks_free [OF ok, of "\<lparr>shape = ShO, x = 1, y = 2, rot = 0\<rparr>"]
      piece_fits_iff_all_blocks_free [OF ok, of "\<lparr>shape = ShO, x = 0, y = 2, rot = 0\<rparr>"]
      piece_fits_iff_all_blocks_free [OF ok, of "\<lparr>shape = ShO, x = 2, y = 2, rot = 0\<rparr>"]
      piece_fits_iff_all_blocks_free [OF ok, of "\<lparr>shape = ShO, x = 1, y = 3, rot = 0\<rparr>"]
    by (simp add: b1 b2 b3 b4)
qed

subsection \<open>Clearing full rows\<close>

lemma has_empty_cell_iff: "list_ex (\<lambda>cell. cell = '''') row = (\<not> full_row row)"
  by (simp add: full_row_def list_all_iff list_ex_iff)

lemma length_filter_split:
  "length (filter P xs) + length (filter (\<lambda>a. \<not> P a) xs) = length xs"
  by (induction xs) simp_all

text \<open>
  C3. On a grid whose list of rows has \<open>height\<close> entries, of which \<open>k\<close> are full,
  \<open>clear_full_rows\<close> returns \<open>k\<close>; the new list is \<open>k\<close> rows of empty cells followed by
  the rows that were not full, in their order, so it has \<open>height\<close> rows again. Fullness
  is decided on the rows as they were before the call. With no full row the grid is
  returned as it was, with the count 0.
\<close>

theorem clear_full_rows_removes_full_rows:
  assumes "int (length (rows g)) = height g"
  shows "clear_full_rows g =
           (int (length (filter full_row (rows g))),
            g\<lparr>rows := replicate (length (filter full_row (rows g))) (replicate (nat (width g)) '''')
                       @ filter (\<lambda>row. \<not> full_row row) (rows g)\<rparr>) \<and>
         length (rows (snd (clear_full_rows g))) = length (rows g) \<and>
         (filter full_row (rows g) = [] \<longrightarrow> clear_full_rows g = (0, g))"
proof -
  let ?k = "length (filter full_row (rows g))"
  let ?kept = "filter (\<lambda>row. \<not> full_row row) (rows g)"
  have kept: "filter (\<lambda>row. list_ex (\<lambda>cell. cell = '''') row) (rows g) = ?kept"
    by (simp add: has_empty_cell_iff)
  have split: "?k + length ?kept = length (rows g)"
    by (rule length_filter_split)
  with assms have cleared: "height g - int (length ?kept) = int ?k"
    by linarith
  have eq: "clear_full_rows g =
      (int ?k, g\<lparr>rows := replicate ?k (replicate (nat (width g)) '''') @ ?kept\<rparr>)"
    by (simp add: clear_full_rows_def Let_def kept cleared)
  have len: "length (rows (snd (clear_full_rows g))) = length (rows g)"
    using split by (simp add: eq)
  have none: "clear_full_rows g = (0, g)" if "filter full_row (rows g) = []"
  proof -
    from that have "\<forall>row \<in> set (rows g). \<not> full_row row"
      by (simp add: filter_empty_conv)
    then have "?kept = rows g" by (simp add: filter_id_conv)
    with that show ?thesis by (simp add: eq)
  qed
  from eq len none show ?thesis by blast
qed

theorem clear_full_rows_removes_full_rows_witness:
  "int (length (rows \<lparr>width = 2, height = 4,
       rows = [[''I'', ''''], [''T'', ''T''], ['''', ''J''], [''O'', ''O'']]\<rparr>)) = 4 \<and>
   clear_full_rows \<lparr>width = 2, height = 4,
       rows = [[''I'', ''''], [''T'', ''T''], ['''', ''J''], [''O'', ''O'']]\<rparr> =
     (2, \<lparr>width = 2, height = 4,
           rows = [['''', ''''], ['''', ''''], [''I'', ''''], ['''', ''J'']]\<rparr>) \<and>
   clear_full_rows \<lparr>width = 2, height = 2, rows = [[''I'', ''''], ['''', ''J'']]\<rparr> =
     (0, \<lparr>width = 2, height = 2, rows = [[''I'', ''''], ['''', ''J'']]\<rparr>)"
  using clear_full_rows_removes_full_rows
      [of "\<lparr>width = 2, height = 4,
             rows = [[''I'', ''''], [''T'', ''T''], ['''', ''J''], [''O'', ''O'']]\<rparr>"]
    clear_full_rows_removes_full_rows
      [of "\<lparr>width = 2, height = 2, rows = [[''I'', ''''], ['''', ''J'']]\<rparr>"]
  by (simp add: full_row_def numeral_2_eq_2)

subsection \<open>Moving and rotating the piece\<close>

lemma piece_ok_move: "piece_ok (move p dx dy drot)"
  by (simp add: piece_ok_def move_def)

lemma move_move: "move (move p dx dy dr) dx' dy' dr' = move p (dx + dx') (dy + dy') (dr + dr')"
  by (simp add: move_def mod_add_left_eq add.assoc)

lemma move_zero: "piece_ok p \<Longrightarrow> move p 0 0 0 = p"
  by (simp add: move_def piece_ok_def)

lemma move_four: "piece_ok p \<Longrightarrow> move p 0 0 4 = p"
  by (simp add: move_def piece_ok_def)

lemma get_blocks_move_zero: "get_blocks (move p 0 0 0) = get_blocks p"
  by (simp add: get_blocks_def move_def block_of_def)

lemma piece_fits_move_zero: "piece_fits g (move p 0 0 0) = piece_fits g p"
  by (simp add: piece_fits_def get_blocks_move_zero)

lemma piece_fits_total: "grid_ok g \<Longrightarrow> \<exists>ok. piece_fits g p = Inr ok"
  by (simp add: piece_fits_grid_ok)

lemma rotate_piece_fits:
  "piece_fits (grid s) (move (piece s) 0 0 1) = Inr True \<Longrightarrow>
   rotate_piece s = Inr (s\<lparr>piece := move (piece s) 0 0 1\<rparr>)"
  by (simp add: rotate_piece_def Let_def)

text \<open>Unfolding these evaluates \<open>piece_fits\<close> on a grid and a piece given in full.\<close>

lemmas eval_fits = piece_fits_def get_blocks_def block_of_def int16_simps py_get_def py_index_def

text \<open>
  C8. In a state whose grid satisfies the class invariant and whose piece has a
  rotation index in \<open>{0..3}\<close>: when the piece moved one column left does not fit,
  \<open>move_left\<close> returns the state it was given, piece included, and so do \<open>move_right\<close>
  and \<open>rotate_piece\<close> for their moves; and whether or not the move fits, each of the
  three returns a state with the same grid and the same score.
\<close>

theorem sideways_moves_revert:
  assumes "grid_ok (grid s)" and "piece_ok (piece s)"
  shows "(piece_fits (grid s) (move (piece s) (- 1) 0 0) = Inr False \<longrightarrow> move_left s = Inr s) \<and>
         (piece_fits (grid s) (move (piece s) 1 0 0) = Inr False \<longrightarrow> move_right s = Inr s) \<and>
         (piece_fits (grid s) (move (piece s) 0 0 1) = Inr False \<longrightarrow> rotate_piece s = Inr s) \<and>
         (\<exists>s'. move_left s = Inr s' \<and> grid s' = grid s \<and> score s' = score s) \<and>
         (\<exists>s'. move_right s = Inr s' \<and> grid s' = grid s \<and> score s' = score s) \<and>
         (\<exists>s'. rotate_piece s = Inr s' \<and> grid s' = grid s \<and> score s' = score s)"
proof -
  from assms(2) have undo:
    "move (move (piece s) (- 1) 0 0) 1 0 0 = piece s"
    "move (move (piece s) 1 0 0) (- 1) 0 0 = piece s"
    "move (move (piece s) 0 0 1) 0 0 (- 1) = piece s"
    by (simp_all add: move_move move_zero)
  have l: "piece_fits (grid s) (move (piece s) (- 1) 0 0) = Inr False \<longrightarrow> move_left s = Inr s"
    by (simp add: move_left_def Let_def undo)
  have r: "piece_fits (grid s) (move (piece s) 1 0 0) = Inr False \<longrightarrow> move_right s = Inr s"
    by (simp add: move_right_def Let_def undo)
  have t: "piece_fits (grid s) (move (piece s) 0 0 1) = Inr False \<longrightarrow> rotate_piece s = Inr s"
    by (simp add: rotate_piece_def Let_def undo)
  have l': "\<exists>s'. move_left s = Inr s' \<and> grid s' = grid s \<and> score s' = score s"
    using piece_fits_total [OF assms(1), of "move (piece s) (- 1) 0 0"]
    by (auto simp: move_left_def Let_def)
  have r': "\<exists>s'. move_right s = Inr s' \<and> grid s' = grid s \<and> score s' = score s"
    using piece_fits_total [OF assms(1), of "move (piece s) 1 0 0"]
    by (auto simp: move_right_def Let_def)
  have t': "\<exists>s'. rotate_piece s = Inr s' \<and> grid s' = grid s \<and> score s' = score s"
    using piece_fits_total [OF assms(1), of "move (piece s) 0 0 1"]
    by (auto simp: rotate_piece_def Let_def)
  from l r t l' r' t' show ?thesis by blast
qed

theorem sideways_moves_revert_witness:
  "move_left \<lparr>grid = \<lparr>width = 4, height = 2,
                       rows = [['''', '''', '''', ''Z''], ['''', '''', '''', '''']]\<rparr>,
              piece = \<lparr>shape = ShT, x = 0, y = 1, rot = 0\<rparr>, score = 300\<rparr> =
     Inr \<lparr>grid = \<lparr>width = 4, height = 2,
                    rows = [['''', '''', '''', ''Z''], ['''', '''', '''', '''']]\<rparr>,
           piece = \<lparr>shape = ShT, x = 0, y = 1, rot = 0\<rparr>, score = 300\<rparr> \<and>
   move_right \<lparr>grid = \<lparr>width = 4, height = 2,
                       rows = [['''', '''', '''', ''Z''], ['''', '''', '''', '''']]\<rparr>,
              piece = \<lparr>shape = ShT, x = 0, y = 1, rot = 0\<rparr>, score = 300\<rparr> =
     Inr \<lparr>grid = \<lparr>width = 4, height = 2,
                    rows = [['''', '''', '''', ''Z''], ['''', '''', '''', '''']]\<rparr>,
           piece = \<lparr>shape = ShT, x = 0, y = 1, rot = 0\<rparr>, score = 300\<rparr> \<and>
   rotate_piece \<lparr>grid = \<lparr>width = 4, height = 2,
                       rows = [['''', '''', '''', ''Z''], ['''', '''', '''', '''']]\<rparr>,
              piece = \<lparr>shape = ShT, x = 0, y = 1, rot = 0\<rparr>, score = 300\<rparr> =
     Inr \<lparr>grid = \<lparr>width = 4, height = 2,
                    rows = [['''', '''', '''', ''Z''], ['''', '''', '''', '''']]\<rparr>,
           piece = \<lparr>shape = ShT, x = 0, y = 1, rot = 0\<rparr>, score = 300\<rparr>"
proof -
  let ?g = "\<lparr>width = 4, height = 2, rows = [['''', '''', '''', ''Z''], ['''', '''', '''', '''']]\<rparr>"
  let ?s = "\<lparr>grid = ?g, piece = \<lparr>shape = ShT, x = 0, y = 1, rot = 0\<rparr>, score = 300\<rparr>"
  have g: "grid_ok (grid ?s)" by (simp add: grid_ok_def)
  have p: "piece_ok (piece ?s)" by (simp add: piece_ok_def)
  have l: "piece_fits (grid ?s) (move (piece ?s) (- 1) 0 0) = Inr False"
    by (simp add: move_def eval_fits)
  have r: "piece_fits (grid ?s) (move (piece ?s) 1 0 0) = Inr False"
    by (simp add: move_def eval_fits)
  have t: "piece_fits (grid ?s) (move (piece ?s) 0 0 1) = Inr False"
    by (simp add: move_def eval_fits)
  from sideways_moves_revert [OF g p] l r t show ?thesis by blast
qed

text \<open>
  C7. If the piece has a rotation index in \<open>{0..3}\<close> and fits after one, two, three
  and four quarter turns, then pressing Rotate four times returns the very state it
  started from: the same rotation index and the same cells. The update of \<open>move\<close> is
  the mathematical modulo: the new index is always in \<open>{0..3}\<close>, and one turn back
  from index 0 gives 3.
\<close>

theorem rotate_four_times:
  assumes ok: "piece_ok (piece s)"
    and fits: "\<forall>n \<in> {1, 2, 3, 4}. piece_fits (grid s) (move (piece s) 0 0 n) = Inr True"
  shows "run [Rotate, Rotate, Rotate, Rotate] s = Inr s \<and>
         rot (move (piece s) 0 0 (- 1)) = (if rot (piece s) = 0 then 3 else rot (piece s) - 1) \<and>
         0 \<le> rot (move p dx dy drot) \<and> rot (move p dx dy drot) < 4"
proof -
  let ?p = "piece s"
  have s1: "rotate_piece s = Inr (s\<lparr>piece := move ?p 0 0 1\<rparr>)"
    using fits by (simp add: rotate_piece_fits)
  have s2: "rotate_piece (s\<lparr>piece := move ?p 0 0 1\<rparr>) = Inr (s\<lparr>piece := move ?p 0 0 2\<rparr>)"
    using fits by (simp add: rotate_piece_fits move_move)
  have s3: "rotate_piece (s\<lparr>piece := move ?p 0 0 2\<rparr>) = Inr (s\<lparr>piece := move ?p 0 0 3\<rparr>)"
    using fits by (simp add: rotate_piece_fits move_move)
  have s4: "rotate_piece (s\<lparr>piece := move ?p 0 0 3\<rparr>) = Inr (s\<lparr>piece := move ?p 0 0 4\<rparr>)"
    using fits by (simp add: rotate_piece_fits move_move)
  have "run [Rotate, Rotate, Rotate, Rotate] s = Inr (s\<lparr>piece := move ?p 0 0 4\<rparr>)"
    by (simp add: s1 s2 s3 s4)
  with ok have "run [Rotate, Rotate, Rotate, Rotate] s = Inr s"
    by (simp add: move_four)
  moreover have "rot (move ?p 0 0 (- 1)) = (if rot ?p = 0 then 3 else rot ?p - 1)"
    using ok by (auto simp: move_def piece_ok_def)
  moreover have "0 \<le> rot (move p dx dy drot) \<and> rot (move p dx dy drot) < 4"
    by (simp add: move_def)
  ultimately show ?thesis by blast
qed

theorem rotate_four_times_witness:
  "run [Rotate, Rotate, Rotate, Rotate]
     \<lparr>grid = \<lparr>width = 3, height = 3,
               rows = [['''', '''', ''''], ['''', '''', ''''], ['''', '''', '''']]\<rparr>,
      piece = \<lparr>shape = ShT, x = 0, y = 2, rot = 0\<rparr>, score = 0\<rparr> =
   Inr \<lparr>grid = \<lparr>width = 3, height = 3,
                  rows = [['''', '''', ''''], ['''', '''', ''''], ['''', '''', '''']]\<rparr>,
         piece = \<lparr>shape = ShT, x = 0, y = 2, rot = 0\<rparr>, score = 0\<rparr> \<and>
   rot (move \<lparr>shape = ShT, x = 0, y = 2, rot = 0\<rparr> 0 0 (- 1)) = 3"
proof -
  let ?g = "\<lparr>width = 3, height = 3, rows = [['''', '''', ''''], ['''', '''', ''''], ['''', '''', '''']]\<rparr>"
  let ?s = "\<lparr>grid = ?g, piece = \<lparr>shape = ShT, x = 0, y = 2, rot = 0\<rparr>, score = 0\<rparr>"
  have p: "piece_ok (piece ?s)" by (simp add: piece_ok_def)
  have f: "\<forall>n \<in> {1, 2, 3, 4}. piece_fits (grid ?s) (move (piece ?s) 0 0 n) = Inr True"
    by (simp add: move_def eval_fits)
  from rotate_four_times [OF p f] show ?thesis by simp
qed

subsection \<open>Writing the grid\<close>

lemma place_blocks_succeeds:
  assumes "length rs = n" and "list_all (\<lambda>row. length row = m) rs"
    and "list_all (valid_index (int m) (int n)) bs"
  shows "\<exists>rs'. place_blocks rs v bs = Inr rs' \<and> length rs' = n \<and>
            list_all (\<lambda>row. length row = m) rs'"
  using assms
proof (induction bs arbitrary: rs)
  case Nil
  then show ?case by simp
next
  case (Cons b bs)
  obtain bx "by" where b: "b = (bx, by)" by (cases b)
  from Cons.prems b have vy: "- int (length rs) \<le> by" "by < int (length rs)"
    and vx: "- int m \<le> bx" "bx < int m"
    by (simp_all add: valid_index_def)
  from vy obtain j where j: "py_index rs by = Inr j"
    using py_index_valid by blast
  then have jlt: "j < length rs" by (rule py_index_Inr)
  with Cons.prems(2) have lenj: "length (rs ! j) = m"
    by (simp add: list_all_length)
  with vx obtain i where i: "py_index (rs ! j) bx = Inr i"
    using py_index_valid [of "rs ! j" bx] by auto
  let ?rs = "rs[j := (rs ! j)[i := v]]"
  have "length ?rs = n" using Cons.prems(1) by simp
  moreover have "list_all (\<lambda>row. length row = m) ?rs"
    using Cons.prems(2) lenj jlt
    by (auto simp: list_all_length nth_list_update)
  moreover have "list_all (valid_index (int m) (int n)) bs"
    using Cons.prems(3) by simp
  ultimately have "\<exists>rs'. place_blocks ?rs v bs = Inr rs' \<and> length rs' = n \<and>
            list_all (\<lambda>row. length row = m) rs'"
    by (rule Cons.IH)
  then show ?case
    by (simp add: b j i py_set_def)
qed

lemma place_piece_succeeds:
  assumes "grid_ok g"
    and "list_all (valid_index (int (nat (width g))) (int (nat (height g)))) (get_blocks p)"
  shows "\<exists>g'. place_piece g p = Inr g' \<and> grid_ok g' \<and> width g' = width g \<and> height g' = height g"
proof -
  from assms(1) have "length (rows g) = nat (height g)"
    and "list_all (\<lambda>row. length row = nat (width g)) (rows g)"
    by (simp_all add: grid_ok_def)
  from place_blocks_succeeds [OF this assms(2), of "shape_key (shape p)"]
  obtain rs' where "place_blocks (rows g) (shape_key (shape p)) (get_blocks p) = Inr rs'"
    and "length rs' = nat (height g)" and "list_all (\<lambda>row. length row = nat (width g)) rs'"
    by blast
  then show ?thesis
    by (simp add: place_piece_def grid_ok_def)
qed

lemma clear_full_rows_grid_ok:
  assumes "grid_ok g"
  shows "grid_ok (snd (clear_full_rows g)) \<and> width (snd (clear_full_rows g)) = width g \<and>
         height (snd (clear_full_rows g)) = height g"
proof -
  let ?kept = "filter (\<lambda>row. list_ex (\<lambda>cell. cell = '''') row) (rows g)"
  have "length ?kept \<le> length (rows g)" by simp
  with assms have "nat (height g - int (length ?kept)) + length ?kept = nat (height g)"
    by (simp add: grid_ok_def)
  moreover from assms have "list_all (\<lambda>row. length row = nat (width g)) ?kept"
    by (simp add: grid_ok_def list_all_iff)
  ultimately show ?thesis
    by (auto simp: clear_full_rows_def Let_def grid_ok_def list_all_iff)
qed

lemma TetrisGrid_init_grid_ok:
  "TetrisGrid_init w h = Inr g \<Longrightarrow> grid_ok g \<and> width g = w \<and> height g = h"
  by (auto simp: TetrisGrid_init_def grid_ok_def list_all_iff)

subsection \<open>The loop of the hard drop\<close>

lemma block_free_valid_index:
  "grid_ok g \<Longrightarrow> block_free g b \<Longrightarrow> valid_index (int (nat (width g))) (int (nat (height g))) b"
  by (auto simp: block_free_def valid_index_def)

lemma fitting_piece_valid:
  assumes "grid_ok g" and "piece_fits g p = Inr True"
  shows "list_all (valid_index (int (nat (width g))) (int (nat (height g)))) (get_blocks p)"
proof -
  from assms have "list_all (block_free g) (get_blocks p)"
    by (simp add: piece_fits_grid_ok)
  then show ?thesis
    using block_free_valid_index [OF assms(1)] by (simp add: list_all_iff)
qed

lemma near_spawn_valid:
  assumes "x p = 4" and "y p = 0 \<or> y p = 1"
  shows "list_all (valid_index 10 16) (get_blocks p)"
proof -
  have "valid_index 10 16 b" if "b \<in> set (get_blocks p)" for b
  proof -
    from that get_blocks_cases [of p]
    have "0 \<le> fst b - x p \<and> fst b - x p < 4 \<and> 0 \<le> y p - snd b \<and> y p - snd b < 4"
      by blast
    with assms show ?thesis
      by (auto simp: valid_index_def)
  qed
  then show ?thesis by (simp add: list_all_iff)
qed

lemma drop_loop_result:
  assumes "grid_ok g"
  shows "\<exists>p1. drop_loop g p = Inr p1 \<and> piece_fits g p1 = Inr False \<and>
           (if piece_fits g p = Inr True then piece_fits g (move p1 0 (- 1) 0) = Inr True
            else p1 = p)"
  using assms
proof (induction g p rule: drop_loop.induct)
  case (1 g p)
  from piece_fits_total [OF "1.prems", of p] obtain ok where ok: "piece_fits g p = Inr ok"
    by blast
  show ?case
  proof (cases ok)
    case False
    with ok show ?thesis by simp
  next
    case True
    let ?q = "move p 0 1 0"
    from "1.IH" [OF ok True "1.prems"] obtain p1
      where p1: "drop_loop g ?q = Inr p1" "piece_fits g p1 = Inr False"
        and nxt: "if piece_fits g ?q = Inr True then piece_fits g (move p1 0 (- 1) 0) = Inr True
                  else p1 = ?q"
      by blast
    have "piece_fits g (move p1 0 (- 1) 0) = Inr True"
    proof (cases "piece_fits g ?q = Inr True")
      case True
      with nxt show ?thesis by simp
    next
      case False
      with nxt have "p1 = ?q" by simp
      then have "move p1 0 (- 1) 0 = move p 0 0 0" by (simp add: move_move)
      with ok True show ?thesis by (simp add: piece_fits_move_zero)
    qed
    with ok True p1 show ?thesis by simp
  qed
qed

subsection \<open>Locking, and what holds of every state of a game\<close>

lemma place_piece_move_zero: "place_piece g (move p 0 0 0) = place_piece g p"
  by (simp add: place_piece_def get_blocks_move_zero) (simp add: move_def)

lemma step_down_moves:
  "piece_fits (grid s) (move (piece s) 0 1 0) = Inr True \<Longrightarrow>
   step_down k s = Inr (s\<lparr>piece := move (piece s) 0 1 0\<rparr>)"
  by (simp add: step_down_def Let_def)

lemma step_down_locks:
  "piece_fits (grid s) (move (piece s) 0 1 0) = Inr False \<Longrightarrow>
   step_down k s = lock_piece k (piece s) s"
  by (simp add: step_down_def Let_def lock_piece_def update_score_def move_move
      place_piece_move_zero split_beta split: sum.splits)

lemma drop_piece_locks:
  "drop_loop (grid s) (piece s) = Inr p1 \<Longrightarrow>
   drop_piece k s = lock_piece k (move p1 0 (- 1) 0) s"
  by (simp add: drop_piece_def Let_def lock_piece_def update_score_def split_beta
      split: sum.splits)

lemma spawn_inv:
  "grid_ok g \<Longrightarrow> width g = 10 \<Longrightarrow> height g = 16 \<Longrightarrow>
   game_inv \<lparr>grid = g, piece = get_next_piece k, score = n\<rparr>"
  by (simp add: game_inv_def get_next_piece_def piece_ok_def)

lemma lock_piece_inv:
  assumes "grid_ok (grid s)" and "width (grid s) = 10" and "height (grid s) = 16"
    and "list_all (valid_index 10 16) (get_blocks p)"
  shows "\<exists>s'. lock_piece k p s = Inr s' \<and> game_inv s'"
proof -
  from assms have "list_all (valid_index (int (nat (width (grid s)))) (int (nat (height (grid s)))))
      (get_blocks p)"
    by simp
  from place_piece_succeeds [OF assms(1) this] obtain g1
    where g1: "place_piece (grid s) p = Inr g1" "grid_ok g1" "width g1 = 10" "height g1 = 16"
    using assms(2,3) by auto
  from clear_full_rows_grid_ok [OF g1(2)] g1(3,4)
  have "grid_ok (snd (clear_full_rows g1))" "width (snd (clear_full_rows g1)) = 10"
    "height (snd (clear_full_rows g1)) = 16"
    by simp_all
  then have "game_inv \<lparr>grid = snd (clear_full_rows g1), piece = get_next_piece k,
      score = score s + fst (clear_full_rows g1) * 100\<rparr>"
    by (rule spawn_inv)
  with g1(1) show ?thesis by (simp add: lock_piece_def)
qed

lemma game_inv_piece_valid:
  assumes "game_inv s"
  shows "list_all (valid_index 10 16) (get_blocks (piece s))"
proof (cases "piece_fits (grid s) (piece s) = Inr True")
  case True
  with assms fitting_piece_valid [of "grid s" "piece s"] show ?thesis
    by (simp add: game_inv_def)
next
  case False
  with assms have "x (piece s) = 4" "y (piece s) = 1"
    by (simp_all add: game_inv_def)
  then show ?thesis by (simp add: near_spawn_valid)
qed

lemma sideways_inv:
  assumes "game_inv s" and "piece_ok (move (piece s) dx 0 dr)"
    and undo: "move (move (piece s) dx 0 dr) (- dx) 0 (- dr) = piece s"
  shows "\<exists>ok. piece_fits (grid s) (move (piece s) dx 0 dr) = Inr ok \<and>
           game_inv (s\<lparr>piece := (if \<not> ok then move (move (piece s) dx 0 dr) (- dx) 0 (- dr)
                                   else move (piece s) dx 0 dr)\<rparr>)"
proof -
  from assms(1) have g: "grid_ok (grid s)" by (simp add: game_inv_def)
  from piece_fits_total [OF g, of "move (piece s) dx 0 dr"]
  obtain ok where ok: "piece_fits (grid s) (move (piece s) dx 0 dr) = Inr ok" by blast
  have "game_inv (s\<lparr>piece := (if \<not> ok then move (move (piece s) dx 0 dr) (- dx) 0 (- dr)
                                   else move (piece s) dx 0 dr)\<rparr>)"
  proof (cases ok)
    case True
    with ok assms(1) show ?thesis by (simp add: game_inv_def piece_ok_move)
  next
    case False
    with assms(1) undo show ?thesis by (simp add: game_inv_def)
  qed
  with ok show ?thesis by blast
qed

lemma move_undo:
  assumes "piece_ok p"
  shows "move (move p dx dy dr) (- dx) (- dy) (- dr) = p"
  using assms by (simp add: move_move move_zero)

lemma game_inv_move_left:
  assumes "game_inv s"
  shows "\<exists>s'. move_left s = Inr s' \<and> game_inv s'"
proof -
  from assms have "piece_ok (piece s)" by (simp add: game_inv_def)
  then have "move (move (piece s) (- 1) 0 0) (- (- 1)) 0 (- 0) = piece s"
    by (simp add: move_move move_zero)
  from sideways_inv [OF assms piece_ok_move this] show ?thesis
    by (auto simp: move_left_def Let_def)
qed

lemma game_inv_move_right:
  assumes "game_inv s"
  shows "\<exists>s'. move_right s = Inr s' \<and> game_inv s'"
proof -
  from assms have "piece_ok (piece s)" by (simp add: game_inv_def)
  then have "move (move (piece s) 1 0 0) (- 1) 0 (- 0) = piece s"
    by (simp add: move_move move_zero)
  from sideways_inv [OF assms piece_ok_move this] show ?thesis
    by (auto simp: move_right_def Let_def)
qed

lemma game_inv_rotate_piece:
  assumes "game_inv s"
  shows "\<exists>s'. rotate_piece s = Inr s' \<and> game_inv s'"
proof -
  from assms have "piece_ok (piece s)" by (simp add: game_inv_def)
  then have "move (move (piece s) 0 0 1) (- 0) 0 (- 1) = piece s"
    by (simp add: move_move move_zero)
  from sideways_inv [OF assms piece_ok_move this] show ?thesis
    by (auto simp: rotate_piece_def Let_def)
qed

lemma game_inv_step_down:
  assumes "game_inv s"
  shows "\<exists>s'. step_down k s = Inr s' \<and> game_inv s'"
proof -
  from assms have g: "grid_ok (grid s)" "width (grid s) = 10" "height (grid s) = 16"
    by (simp_all add: game_inv_def)
  from piece_fits_total [OF g(1), of "move (piece s) 0 1 0"]
  obtain ok where ok: "piece_fits (grid s) (move (piece s) 0 1 0) = Inr ok" by blast
  show ?thesis
  proof (cases ok)
    case True
    with ok assms show ?thesis
      by (simp add: step_down_moves game_inv_def piece_ok_move)
  next
    case False
    with ok have "step_down k s = lock_piece k (piece s) s"
      by (simp add: step_down_locks)
    with lock_piece_inv [OF g game_inv_piece_valid [OF assms]] show ?thesis by simp
  qed
qed

lemma game_inv_drop_piece:
  assumes "game_inv s"
  shows "\<exists>s'. drop_piece k s = Inr s' \<and> game_inv s'"
proof -
  from assms have g: "grid_ok (grid s)" "width (grid s) = 10" "height (grid s) = 16"
    by (simp_all add: game_inv_def)
  from drop_loop_result [OF g(1), of "piece s"] obtain p1
    where p1: "drop_loop (grid s) (piece s) = Inr p1"
      and res: "if piece_fits (grid s) (piece s) = Inr True
                then piece_fits (grid s) (move p1 0 (- 1) 0) = Inr True else p1 = piece s"
    by blast
  have "list_all (valid_index 10 16) (get_blocks (move p1 0 (- 1) 0))"
  proof (cases "piece_fits (grid s) (piece s) = Inr True")
    case True
    with res have "piece_fits (grid s) (move p1 0 (- 1) 0) = Inr True" by simp
    with fitting_piece_valid [OF g(1)] g(2,3) show ?thesis by fastforce
  next
    case False
    with res assms have "p1 = piece s" "x (piece s) = 4" "y (piece s) = 1"
      by (simp_all add: game_inv_def)
    then show ?thesis by (simp add: near_spawn_valid move_def)
  qed
  from lock_piece_inv [OF g this] p1 show ?thesis
    by (simp add: drop_piece_locks)
qed

lemma game_inv_init: "\<exists>s. game_init k = Inr s \<and> game_inv s"
proof -
  obtain g where g: "TetrisGrid_init 10 16 = Inr g" by (simp add: TetrisGrid_init_def)
  with TetrisGrid_init_grid_ok [OF g] show ?thesis
    by (simp add: game_init_def spawn_inv)
qed

lemma game_inv_reset_game: "\<exists>s'. reset_game k s = Inr s' \<and> game_inv s'"
proof -
  obtain g where g: "TetrisGrid_init 10 16 = Inr g" by (simp add: TetrisGrid_init_def)
  have "s\<lparr>grid := g, piece := get_next_piece k, score := 0\<rparr> =
      \<lparr>grid = g, piece = get_next_piece k, score = 0\<rparr>"
    by simp
  with g TetrisGrid_init_grid_ok [OF g] show ?thesis
    by (simp add: reset_game_def spawn_inv del: StepTetrisGame.simps)
qed

lemma game_inv_act:
  assumes "game_inv s"
  shows "\<exists>s'. act a s = Inr s' \<and> game_inv s'"
  using assms
  by (cases a)
    (simp_all add: game_inv_move_left game_inv_move_right game_inv_rotate_piece
      game_inv_step_down game_inv_drop_piece game_inv_reset_game)

lemma reachable_game_inv: "reachable s \<Longrightarrow> game_inv s"
proof (induction rule: reachable.induct)
  case (start k s)
  with game_inv_init [of k] show ?case by auto
next
  case (step s a s')
  with game_inv_act [of s a] show ?case by auto
qed

subsection \<open>Reachable states\<close>

lemma game_init_eq:
  "game_init k = Inr \<lparr>grid = empty_grid, piece = get_next_piece k, score = 0\<rparr>"
  by (simp add: game_init_def TetrisGrid_init_def empty_grid_def)

lemma reachable_fresh: "reachable \<lparr>grid = empty_grid, piece = get_next_piece k, score = 0\<rparr>"
  using game_init_eq by (rule reachable.start)

lemma reachable_run: "reachable s \<Longrightarrow> run as s = Inr s' \<Longrightarrow> reachable s'"
proof (induction as arbitrary: s)
  case Nil
  then show ?case by simp
next
  case (Cons a as)
  from Cons.prems(2) obtain s1 where s1: "act a s = Inr s1" and r: "run as s1 = Inr s'"
    by (auto split: sum.splits)
  from Cons.prems(1) s1 have "reachable s1" by (rule reachable.step)
  then show ?case using r by (rule Cons.IH)
qed

subsection \<open>Stepping down\<close>

lemma move_down_piece_ok: "piece_ok p \<Longrightarrow> move p 0 1 0 = p\<lparr>y := y p + 1\<rparr>"
  by (simp add: move_def piece_ok_def)

text \<open>
  C5. In every state of a game, one call of \<open>step_down\<close> does one of two things, and
  which one is decided by whether the piece one row down fits. If it fits, the state
  returned differs from the state given only in the \<open>y\<close> of the piece, which is one more.
  If it does not fit, the piece is placed where it was before the call, the full rows
  are cleared, the score grows by 100 times the number of cleared rows, added once,
  and the piece is the newly spawned one. The two conditions exclude each other, and
  no call raises.
\<close>

theorem step_down_moves_or_locks:
  assumes "reachable s"
  shows "(piece_fits (grid s) (move (piece s) 0 1 0) = Inr True \<and>
          step_down k s = Inr (s\<lparr>piece := (piece s)\<lparr>y := y (piece s) + 1\<rparr>\<rparr>)) \<or>
         (piece_fits (grid s) (move (piece s) 0 1 0) = Inr False \<and>
          (\<exists>g1. place_piece (grid s) (piece s) = Inr g1 \<and>
             step_down k s =
               Inr \<lparr>grid = snd (clear_full_rows g1), piece = get_next_piece k,
                    score = score s + fst (clear_full_rows g1) * 100\<rparr>))"
proof -
  from assms have inv: "game_inv s" by (rule reachable_game_inv)
  then have g: "grid_ok (grid s)" "width (grid s) = 10" "height (grid s) = 16"
    and p: "piece_ok (piece s)"
    by (simp_all add: game_inv_def)
  from piece_fits_total [OF g(1), of "move (piece s) 0 1 0"]
  obtain ok where ok: "piece_fits (grid s) (move (piece s) 0 1 0) = Inr ok" by blast
  show ?thesis
  proof (cases ok)
    case True
    with ok p show ?thesis
      by (simp add: step_down_moves move_down_piece_ok)
  next
    case False
    with ok have st: "step_down k s = lock_piece k (piece s) s"
      by (simp add: step_down_locks)
    from lock_piece_inv [OF g game_inv_piece_valid [OF inv], of k]
    obtain g1 where "place_piece (grid s) (piece s) = Inr g1"
      by (auto simp: lock_piece_def split: sum.splits)
    with st ok False show ?thesis
      by (simp add: lock_piece_def)
  qed
qed

theorem step_down_moves_or_locks_witness:
  "reachable \<lparr>grid = empty_grid, piece = \<lparr>shape = ShI, x = 4, y = 1, rot = 0\<rparr>, score = 0\<rparr> \<and>
   step_down ShT \<lparr>grid = empty_grid, piece = \<lparr>shape = ShI, x = 4, y = 1, rot = 0\<rparr>, score = 0\<rparr> =
     Inr \<lparr>grid = empty_grid, piece = \<lparr>shape = ShI, x = 4, y = 2, rot = 0\<rparr>, score = 0\<rparr> \<and>
   reachable \<lparr>grid = empty_grid, piece = \<lparr>shape = ShI, x = 4, y = 16, rot = 0\<rparr>, score = 0\<rparr> \<and>
   step_down ShT \<lparr>grid = empty_grid, piece = \<lparr>shape = ShI, x = 4, y = 16, rot = 0\<rparr>, score = 0\<rparr> =
     Inr \<lparr>grid = grid_with_I, piece = \<lparr>shape = ShT, x = 4, y = 1, rot = 0\<rparr>, score = 0\<rparr>"
proof -
  let ?s0 = "\<lparr>grid = empty_grid, piece = \<lparr>shape = ShI, x = 4, y = 1, rot = 0\<rparr>, score = 0\<rparr>"
  let ?s1 = "\<lparr>grid = empty_grid, piece = \<lparr>shape = ShI, x = 4, y = 16, rot = 0\<rparr>, score = 0\<rparr>"
  have r0: "reachable ?s0"
    using reachable_fresh [of ShI] by (simp add: get_next_piece_def)
  have "run (replicate 15 (StepDown ShT)) ?s0 = Inr ?s1" by code_simp
  with r0 have r1: "reachable ?s1" by (rule reachable_run)
  have f0: "piece_fits (grid ?s0) (move (piece ?s0) 0 1 0) = Inr True" by code_simp
  have f1: "piece_fits (grid ?s1) (move (piece ?s1) 0 1 0) = Inr False" by code_simp
  have pl: "place_piece (grid ?s1) (piece ?s1) = Inr grid_with_I" by code_simp
  have cl: "clear_full_rows grid_with_I = (0, grid_with_I)" by code_simp
  from step_down_moves_or_locks [OF r0, of ShT] f0
  have a: "step_down ShT ?s0 =
      Inr \<lparr>grid = empty_grid, piece = \<lparr>shape = ShI, x = 4, y = 2, rot = 0\<rparr>, score = 0\<rparr>"
    by simp
  from step_down_moves_or_locks [OF r1, of ShT] f1 pl cl
  have b: "step_down ShT ?s1 =
      Inr \<lparr>grid = grid_with_I, piece = \<lparr>shape = ShT, x = 4, y = 1, rot = 0\<rparr>, score = 0\<rparr>"
    by (simp add: get_next_piece_def)
  from r0 r1 a b show ?thesis by blast
qed

subsection \<open>The piece that is placed\<close>




text \<open>
  \<open>drop_piece\<close> calls \<open>place_piece\<close> with a piece that does not fit as well, by the
  slip that C2 reports: in a fresh game whose first piece is the O piece, the piece
  does not fit, the loop leaves it where it is, the move up puts it at \<open>y = 0\<close> with its
  blocks in the rows \<open>-1\<close> and \<open>-2\<close>, and the negative row indices write into the two
  lowest rows of the grid.
\<close>

lemma drop_piece_places_unfit_piece:
  "reachable \<lparr>grid = empty_grid, piece = \<lparr>shape = ShO, x = 4, y = 1, rot = 0\<rparr>, score = 0\<rparr> \<and>
   drop_loop empty_grid \<lparr>shape = ShO, x = 4, y = 1, rot = 0\<rparr> =
     Inr \<lparr>shape = ShO, x = 4, y = 1, rot = 0\<rparr> \<and>
   move \<lparr>shape = ShO, x = 4, y = 1, rot = 0\<rparr> 0 (- 1) 0 = \<lparr>shape = ShO, x = 4, y = 0, rot = 0\<rparr> \<and>
   get_blocks \<lparr>shape = ShO, x = 4, y = 0, rot = 0\<rparr> = [(5, - 1), (6, - 1), (6, - 2), (5, - 2)] \<and>
   piece_fits empty_grid \<lparr>shape = ShO, x = 4, y = 0, rot = 0\<rparr> = Inr False \<and>
   place_piece empty_grid \<lparr>shape = ShO, x = 4, y = 0, rot = 0\<rparr> = Inr grid_with_O \<and>
   drop_piece ShI \<lparr>grid = empty_grid, piece = \<lparr>shape = ShO, x = 4, y = 1, rot = 0\<rparr>, score = 0\<rparr> =
     Inr \<lparr>grid = grid_with_O, piece = \<lparr>shape = ShI, x = 4, y = 1, rot = 0\<rparr>, score = 0\<rparr>"
proof -
  have "reachable \<lparr>grid = empty_grid, piece = \<lparr>shape = ShO, x = 4, y = 1, rot = 0\<rparr>, score = 0\<rparr>"
    using reachable_fresh [of ShO] by (simp add: get_next_piece_def)
  moreover have "drop_loop empty_grid \<lparr>shape = ShO, x = 4, y = 1, rot = 0\<rparr> =
     Inr \<lparr>shape = ShO, x = 4, y = 1, rot = 0\<rparr>"
    by code_simp
  moreover have "move \<lparr>shape = ShO, x = 4, y = 1, rot = 0\<rparr> 0 (- 1) 0 =
      \<lparr>shape = ShO, x = 4, y = 0, rot = 0\<rparr>"
    by (simp add: move_def)
  moreover have "get_blocks \<lparr>shape = ShO, x = 4, y = 0, rot = 0\<rparr> =
      [(5, - 1), (6, - 1), (6, - 2), (5, - 2)]"
    by (simp add: get_blocks_def block_of_def int16_simps)
  moreover have "piece_fits empty_grid \<lparr>shape = ShO, x = 4, y = 0, rot = 0\<rparr> = Inr False"
    by code_simp
  moreover have "place_piece empty_grid \<lparr>shape = ShO, x = 4, y = 0, rot = 0\<rparr> = Inr grid_with_O"
    by code_simp
  moreover have "drop_piece ShI
      \<lparr>grid = empty_grid, piece = \<lparr>shape = ShO, x = 4, y = 1, rot = 0\<rparr>, score = 0\<rparr> =
     Inr \<lparr>grid = grid_with_O, piece = \<lparr>shape = ShI, x = 4, y = 1, rot = 0\<rparr>, score = 0\<rparr>"
    by code_simp
  ultimately show ?thesis by blast
qed

subsection \<open>Construction and errors\<close>




subsection \<open>The O piece where it is spawned\<close>

lemma piece_fits_negative_row:
  assumes "grid_ok g" and "(bx, - 1) \<in> set (get_blocks p)"
  shows "piece_fits g p = Inr False"
proof -
  have "\<not> block_free g (bx, - 1)" by (simp add: block_free_def)
  with assms(2) have "\<not> list_all (block_free g) (get_blocks p)"
    by (auto simp: list_all_iff)
  with assms(1) show ?thesis by (simp add: piece_fits_grid_ok)
qed

text \<open>
  C10. A piece of key O at the spawn position \<open>x = 4\<close>, \<open>y = 1\<close>, rotation 0 has the
  cells \<open>(5, 0)\<close>, \<open>(6, 0)\<close>, \<open>(6, -1)\<close>, \<open>(5, -1)\<close>: two of them in row \<open>-1\<close>. So
  \<open>piece_fits\<close> is false for it on every grid, the empty default grid included, and
  \<open>move_left\<close>, \<open>move_right\<close> and \<open>rotate_piece\<close> return the state they were given.
  The pieces of the six other keys fit at the spawn position on the empty default grid.
\<close>

theorem fresh_O_piece_does_not_fit:
  assumes "grid_ok (grid s)" and "piece s = get_next_piece ShO"
  shows "get_blocks (piece s) = [(5, 0), (6, 0), (6, - 1), (5, - 1)] \<and>
         piece_fits (grid s) (piece s) = Inr False \<and>
         move_left s = Inr s \<and> move_right s = Inr s \<and> rotate_piece s = Inr s \<and>
         piece_fits empty_grid (get_next_piece ShO) = Inr False \<and>
         (\<forall>k. k \<noteq> ShO \<longrightarrow> piece_fits empty_grid (get_next_piece k) = Inr True)"
proof -
  let ?p = "get_next_piece ShO"
  have blocks: "get_blocks ?p = [(5, 0), (6, 0), (6, - 1), (5, - 1)]"
    by (simp add: get_next_piece_def get_blocks_def block_of_def int16_simps)
  have ok: "piece_ok ?p" by (simp add: get_next_piece_def piece_ok_def)
  have "(6, - 1) \<in> set (get_blocks ?p)" by (simp add: blocks)
  with assms(1) have fit: "piece_fits (grid s) ?p = Inr False"
    by (rule piece_fits_negative_row)
  have "(5, - 1) \<in> set (get_blocks (move ?p (- 1) 0 0))"
    by (simp add: get_next_piece_def move_def get_blocks_def block_of_def int16_simps)
  with assms(1) have l: "piece_fits (grid s) (move ?p (- 1) 0 0) = Inr False"
    by (rule piece_fits_negative_row)
  have "(6, - 1) \<in> set (get_blocks (move ?p 1 0 0))"
    by (simp add: get_next_piece_def move_def get_blocks_def block_of_def int16_simps)
  with assms(1) have r: "piece_fits (grid s) (move ?p 1 0 0) = Inr False"
    by (rule piece_fits_negative_row)
  have "(6, - 1) \<in> set (get_blocks (move ?p 0 0 1))"
    by (simp add: get_next_piece_def move_def get_blocks_def block_of_def int16_simps)
  with assms(1) have t: "piece_fits (grid s) (move ?p 0 0 1) = Inr False"
    by (rule piece_fits_negative_row)
  have ml: "move_left s = Inr s"
    using l move_undo [OF ok, of "- 1" 0 0] by (simp add: move_left_def Let_def assms(2))
  have mr: "move_right s = Inr s"
    using r move_undo [OF ok, of 1 0 0] by (simp add: move_right_def Let_def assms(2))
  have rt: "rotate_piece s = Inr s"
    using t move_undo [OF ok, of 0 0 1] by (simp add: rotate_piece_def Let_def assms(2))
  have e: "piece_fits empty_grid ?p = Inr False" by code_simp
  have six: "piece_fits empty_grid (get_next_piece ShI) = Inr True"
    "piece_fits empty_grid (get_next_piece ShJ) = Inr True"
    "piece_fits empty_grid (get_next_piece ShL) = Inr True"
    "piece_fits empty_grid (get_next_piece ShT) = Inr True"
    "piece_fits empty_grid (get_next_piece ShZ) = Inr True"
    "piece_fits empty_grid (get_next_piece ShS) = Inr True"
    by code_simp+
  have others: "piece_fits empty_grid (get_next_piece k) = Inr True" if "k \<noteq> ShO" for k
    using that six by (cases k) simp_all
  from blocks fit ml mr rt e others show ?thesis by (simp add: assms(2))
qed

theorem fresh_O_piece_does_not_fit_witness:
  "game_init ShO = Inr \<lparr>grid = empty_grid, piece = get_next_piece ShO, score = 0\<rparr> \<and>
   grid_ok empty_grid \<and>
   get_blocks (get_next_piece ShO) = [(5, 0), (6, 0), (6, - 1), (5, - 1)] \<and>
   piece_fits empty_grid (get_next_piece ShO) = Inr False \<and>
   move_left \<lparr>grid = empty_grid, piece = get_next_piece ShO, score = 0\<rparr> =
     Inr \<lparr>grid = empty_grid, piece = get_next_piece ShO, score = 0\<rparr> \<and>
   move_right \<lparr>grid = empty_grid, piece = get_next_piece ShO, score = 0\<rparr> =
     Inr \<lparr>grid = empty_grid, piece = get_next_piece ShO, score = 0\<rparr> \<and>
   rotate_piece \<lparr>grid = empty_grid, piece = get_next_piece ShO, score = 0\<rparr> =
     Inr \<lparr>grid = empty_grid, piece = get_next_piece ShO, score = 0\<rparr> \<and>
   piece_fits empty_grid (get_next_piece ShS) = Inr True"
proof -
  let ?s = "\<lparr>grid = empty_grid, piece = get_next_piece ShO, score = 0\<rparr>"
  have g: "grid_ok (grid ?s)" by (simp add: grid_ok_def empty_grid_def list_all_iff)
  have p: "piece ?s = get_next_piece ShO" by simp
  from fresh_O_piece_does_not_fit [OF g p] g game_init_eq [of ShO] show ?thesis by simp
qed

subsection \<open>Hard drop and repeated steps\<close>

text \<open>
  From a state whose piece fits, \<open>drop_piece\<close> returns what calling \<open>step_down\<close> until
  the call that locks returns: the same grid, the same score, the same new piece.
\<close>

lemma lock_piece_move_zero: "lock_piece k (move p 0 0 0) s = lock_piece k p s"
  by (simp add: lock_piece_def place_piece_move_zero)

lemma lock_piece_piece_update: "lock_piece k p (s\<lparr>piece := q\<rparr>) = lock_piece k p s"
  by (simp add: lock_piece_def split: sum.splits)

lemma drop_piece_eq_steps:
  assumes "grid_ok (grid s)" and "piece_fits (grid s) (piece s) = Inr True"
  shows "drop_piece k s = step_down_until_lock k s"
  using assms
proof (induction k s rule: step_down_until_lock.induct)
  case (1 k s)
  let ?q = "move (piece s) 0 1 0"
  from piece_fits_total [OF "1.prems"(1), of ?q]
  obtain ok where ok: "piece_fits (grid s) ?q = Inr ok" by blast
  have loop: "drop_loop (grid s) (piece s) = drop_loop (grid s) ?q"
    using "1.prems"(2) by (subst drop_loop.simps) simp
  show ?case
  proof (cases ok)
    case True
    let ?s' = "s\<lparr>piece := ?q\<rparr>"
    from ok True have st: "step_down k s = Inr ?s'" by (simp add: step_down_moves)
    from "1.prems"(1) ok True have "drop_piece k ?s' = step_down_until_lock k ?s'"
      by (intro "1.IH" [OF ok True st]) simp_all
    moreover have "step_down_until_lock k s = step_down_until_lock k ?s'"
      using ok True st by (subst step_down_until_lock.simps) simp
    moreover have "drop_piece k s = drop_piece k ?s'"
    proof -
      from drop_loop_result [OF "1.prems"(1), of ?q] obtain p1
        where p1: "drop_loop (grid s) ?q = Inr p1" by blast
      with loop have "drop_piece k s = lock_piece k (move p1 0 (- 1) 0) s"
        by (simp add: drop_piece_locks)
      moreover from p1 have "drop_piece k ?s' = lock_piece k (move p1 0 (- 1) 0) ?s'"
        by (simp add: drop_piece_locks)
      ultimately show ?thesis by (simp add: lock_piece_piece_update)
    qed
    ultimately show ?thesis by simp
  next
    case False
    with ok have "step_down_until_lock k s = lock_piece k (piece s) s"
      by (subst step_down_until_lock.simps) (simp add: step_down_locks)
    moreover from ok False have "drop_loop (grid s) ?q = Inr ?q"
      by (subst drop_loop.simps) simp
    with loop have "drop_piece k s = lock_piece k (move ?q 0 (- 1) 0) s"
      by (simp add: drop_piece_locks)
    then have "drop_piece k s = lock_piece k (piece s) s"
      by (simp add: move_move lock_piece_move_zero)
    ultimately show ?thesis by simp
  qed
qed

text \<open>
  C2 does not hold of the code when the piece does not fit at the start. After one
  hard drop of an O piece in a fresh game the grid holds that piece in its two lowest
  rows and the next O piece is spawned, not fitting. \<open>drop_piece\<close> then leaves the
  loop at once, moves the piece up to \<open>y = 0\<close> and writes its cells through the row
  indices \<open>-1\<close> and \<open>-2\<close> onto the cells that are already filled, so the grid does not
  change; \<open>step_down\<close> called until it locks moves the piece down and locks it on
  top of the first one.
\<close>

theorem drop_piece_differs_from_steps:
  "reachable \<lparr>grid = grid_with_O, piece = \<lparr>shape = ShO, x = 4, y = 1, rot = 0\<rparr>, score = 0\<rparr> \<and>
   drop_piece ShI \<lparr>grid = grid_with_O, piece = \<lparr>shape = ShO, x = 4, y = 1, rot = 0\<rparr>, score = 0\<rparr> =
     Inr \<lparr>grid = grid_with_O, piece = \<lparr>shape = ShI, x = 4, y = 1, rot = 0\<rparr>, score = 0\<rparr> \<and>
   step_down_until_lock ShI
       \<lparr>grid = grid_with_O, piece = \<lparr>shape = ShO, x = 4, y = 1, rot = 0\<rparr>, score = 0\<rparr> =
     Inr \<lparr>grid = grid_with_two_O, piece = \<lparr>shape = ShI, x = 4, y = 1, rot = 0\<rparr>, score = 0\<rparr> \<and>
   grid_with_O \<noteq> grid_with_two_O"
proof -
  let ?s0 = "\<lparr>grid = empty_grid, piece = \<lparr>shape = ShO, x = 4, y = 1, rot = 0\<rparr>, score = 0\<rparr>"
  let ?s1 = "\<lparr>grid = grid_with_O, piece = \<lparr>shape = ShO, x = 4, y = 1, rot = 0\<rparr>, score = 0\<rparr>"
  have "reachable ?s0"
    using reachable_fresh [of ShO] by (simp add: get_next_piece_def)
  moreover have "run [DropPiece ShO] ?s0 = Inr ?s1" by code_simp
  ultimately have "reachable ?s1" by (rule reachable_run)
  moreover have "drop_piece ShI ?s1 =
      Inr \<lparr>grid = grid_with_O, piece = \<lparr>shape = ShI, x = 4, y = 1, rot = 0\<rparr>, score = 0\<rparr>"
    by code_simp
  moreover have "step_down_until_lock ShI ?s1 =
      Inr \<lparr>grid = grid_with_two_O, piece = \<lparr>shape = ShI, x = 4, y = 1, rot = 0\<rparr>, score = 0\<rparr>"
    by code_simp
  moreover have "grid_with_O \<noteq> grid_with_two_O" by code_simp
  ultimately show ?thesis by blast
qed

end
